theory Spec2Isabelle
  imports Complex_Main
begin

section \<open>Python strings and the library functions the calculator calls\<close>

text \<open>
  A Python \<open>str\<close> is a sequence of Unicode code points. Three functions of the Python
  runtime that the calculator calls depend on the Unicode character database:
  \<open>str.strip\<close> (which code points are white space), the regular expression class
  \<open>\w\<close> (which code points are word characters) and \<open>str.lower\<close>. The database is
  not part of the repository, so it is a parameter of the model: every theorem below
  holds for every choice of the three tables. \<open>ascii_tables\<close> gives their values on
  ASCII text and is used to evaluate the model on concrete ASCII inputs.

  A Python float is a double, a real number here, and every float operation returns
  the exact result rounded to a double. The rounding \<open>R\<close> is a parameter of the
  model as well: every theorem below holds for every function \<open>R\<close> on the reals,
  so for the rounding of IEEE 754 whatever the platform's details. Comparisons of
  floats, with each other or with integers, are exact. \<open>ieee_round\<close> is the
  rounding of binary64 (to nearest, ties to even) and is used on concrete inputs.

  An argument that is \<open>None\<close> instead of a string is the value \<open>None\<close> of an
  option type, and a raised exception is the left summand of a sum type.
\<close>

type_synonym codepoint = nat
type_synonym pystr = "codepoint list"

record unicode =
  uni_isspace :: "codepoint \<Rightarrow> bool"
  uni_isword :: "codepoint \<Rightarrow> bool"
  uni_lower :: "pystr \<Rightarrow> pystr"

definition str_of :: "string \<Rightarrow> pystr" where
  "str_of s = map of_char s"

definition ascii_tables :: unicode where
  "ascii_tables =
     \<lparr>uni_isspace = (\<lambda>c. (9 \<le> c \<and> c \<le> 13) \<or> (28 \<le> c \<and> c \<le> 32)),
      uni_isword = (\<lambda>c. (48 \<le> c \<and> c \<le> 57) \<or> (65 \<le> c \<and> c \<le> 90) \<or> c = 95
                        \<or> (97 \<le> c \<and> c \<le> 122)),
      uni_lower = map (\<lambda>c. if 65 \<le> c \<and> c \<le> 90 then c + 32 else c)\<rparr>"

datatype py_exception =
    TypeError
  | ConnectionError
  | OtherException
  | Retry nat
  | MaxRetriesExceededError
  | HTTPException nat

text \<open>
  Rounding to a double. A double other than 0 is an integer multiple of
  \<open>2 ^ (e - 52)\<close> with \<open>e\<close> the exponent of its binade, at least \<open>-1022\<close>;
  a real number is rounded to the nearest multiple, a tie to the even one. Results
  beyond the largest double, where Python gives \<open>inf\<close> or raises
  \<open>OverflowError\<close>, are not modelled: they need word counts above \<open>10 ^ 150\<close>.
\<close>

type_synonym rounding = "real \<Rightarrow> real"

definition round_half_even :: "real \<Rightarrow> int" where
  "round_half_even y =
     (let f = \<lfloor>y\<rfloor>; d = y - of_int f
      in if d < 1 / 2 then f else if d > 1 / 2 then f + 1 else if even f then f else f + 1)"

definition ieee_round :: rounding where
  "ieee_round x =
     (if x = 0 then 0
      else
        let e = max \<lfloor>log 2 \<bar>x\<bar>\<rfloor> (- 1022);
            ulp = 2 powr of_int (e - 52)
        in of_int (round_half_even (x / ulp)) * ulp)"

text \<open>\<open>text.strip()\<close>: leading and trailing white space removed.\<close>

definition strip :: "unicode \<Rightarrow> pystr \<Rightarrow> pystr" where
  "strip U s = rev (dropWhile (uni_isspace U) (rev (dropWhile (uni_isspace U) s)))"

text \<open>
  \<open>re.findall\<close> for a pattern \<open>C+\<close> over a character class \<open>C\<close>: the maximal runs of
  characters of the class, left to right. \<open>\b\w+\b\<close> is such a pattern: the greedy
  \<open>\w+\<close> takes a maximal run of word characters, and both ends of a maximal run are
  word boundaries.
\<close>

function findall_runs :: "('a \<Rightarrow> bool) \<Rightarrow> 'a list \<Rightarrow> 'a list list" where
  "findall_runs P [] = []"
| "findall_runs P (c # cs) =
     (if P c then (c # takeWhile P cs) # findall_runs P (dropWhile P cs)
      else findall_runs P cs)"
  by pat_completeness auto
termination
  by (relation "measure (\<lambda>(P, s). length s)")
     (auto simp: less_Suc_eq_le length_dropWhile_le)

text \<open>
  \<open>re.split\<close> for a pattern \<open>C+\<close>: the pieces between the maximal runs of characters
  of the class, the empty pieces at both ends included.
\<close>

function re_split :: "('a \<Rightarrow> bool) \<Rightarrow> 'a list \<Rightarrow> 'a list list" where
  "re_split P [] = [[]]"
| "re_split P (c # cs) =
     (if P c then [] # re_split P (dropWhile P cs)
      else (case re_split P cs of [] \<Rightarrow> [[c]] | p # ps \<Rightarrow> (c # p) # ps))"
  by pat_completeness auto
termination
  by (relation "measure (\<lambda>(P, s). length s)")
     (auto simp: less_Suc_eq_le length_dropWhile_le)

definition is_sentence_end :: "codepoint \<Rightarrow> bool" where
  "is_sentence_end c = (c \<in> set (str_of ''.!?''))"

definition is_vowel :: "codepoint \<Rightarrow> bool" where
  "is_vowel c = (c \<in> set (str_of ''aeiouy''))"

text \<open>Dictionaries keep insertion order: association lists with distinct keys.\<close>

definition dict_get :: "('k \<times> 'v) list \<Rightarrow> 'k \<Rightarrow> 'v \<Rightarrow> 'v" where
  "dict_get d k dflt = (case map_of d k of None \<Rightarrow> dflt | Some v \<Rightarrow> v)"

fun dict_set :: "('k \<times> 'v) list \<Rightarrow> 'k \<Rightarrow> 'v \<Rightarrow> ('k \<times> 'v) list" where
  "dict_set [] k v = [(k, v)]"
| "dict_set ((k', v') # d) k v =
     (if k' = k then (k', v) # d else (k', v') # dict_set d k v)"

definition Counter :: "'k list \<Rightarrow> ('k \<times> int) list" where
  "Counter ws = foldl (\<lambda>c w. dict_set c w (dict_get c w 0 + 1)) [] ws"

text \<open>
  \<open>max(d, key=d.get)\<close> on a dictionary: the keys are visited in insertion order and a
  later key replaces the best one only when its value is strictly greater, so the first
  key of maximal value wins. On an empty dictionary Python raises \<open>ValueError\<close>
  (\<open>None\<close> here); the caller tests for emptiness first.
\<close>

fun max_from :: "'k \<times> 'v::linorder \<Rightarrow> ('k \<times> 'v) list \<Rightarrow> 'k" where
  "max_from best [] = fst best"
| "max_from best (kv # d) = max_from (if snd best < snd kv then kv else best) d"

definition max_key :: "('k \<times> 'v::linorder) list \<Rightarrow> 'k option" where
  "max_key d = (case d of [] \<Rightarrow> None | kv # d' \<Rightarrow> Some (max_from kv d'))"

section \<open>The estimator (main.py and calculator/tasks.py, identical in both)\<close>

definition ARCHAIC_VOCABULARY :: "(int \<times> pystr list) list" where
  "ARCHAIC_VOCABULARY =
    [(1300, map str_of [''thou'', ''thee'', ''thy'', ''hath'', ''dost'', ''ye'', ''verily'',
                        ''betwixt'', ''regin'', ''rex'', ''anno'', ''domini'']),
     (1500, map str_of [''shall'', ''unto'', ''upon'', ''lord'', ''king'', ''majesty'',
                        ''whereas'', ''hereby'', ''aforesaid'']),
     (1700, map str_of [''constitution'', ''liberty'', ''property'', ''reason'', ''nature'',
                        ''society'', ''contract'', ''federal'']),
     (1900, map str_of [''technology'', ''system'', ''data'', ''analysis'', ''program'',
                        ''network'', ''computer'', ''digital''])]"

text \<open>
  Where the code computes with floats, each operation is written with its rounding:
  a literal such as \<open>206.835\<close> is the double nearest to it, \<open>a / b\<close> on integers
  is the rounded quotient, \<open>math.sqrt\<close> of an integer converts it to a double and
  rounds the root. The integers \<open>0, 40, 50, 70, 100, 300, 500, 1000\<close> are doubles.
\<close>

definition safe_calculate_flesch_reading_ease :: "rounding \<Rightarrow> unicode \<Rightarrow> pystr option \<Rightarrow> real" where
  "safe_calculate_flesch_reading_ease R U text =
     (case text of
        None \<Rightarrow> 50
      | Some t \<Rightarrow>
          if t = [] \<or> length (strip U t) < 10 then 50
          else
            let sentences = filter (\<lambda>s. length (strip U s) > 1) (re_split is_sentence_end t);
                num_sentences = max (length sentences) 1;
                words = findall_runs (uni_isword U) t;
                num_words = max (length words) 1;
                num_syllables =
                  sum_list (map (\<lambda>w. length (findall_runs is_vowel (uni_lower U w))) words);
                score =
                  R (R (R 206.835 - R (R 1.015 * R (real num_words / real num_sentences)))
                     - R (R 84.6 * R (real num_syllables / real num_words)))
            in max 0 (min 100 score))"

definition safe_cosine_similarity ::
  "rounding \<Rightarrow> ('k \<times> int) list \<Rightarrow> ('k \<times> int) list \<Rightarrow> real" where
  "safe_cosine_similarity R vec1 vec2 =
     (let intersection = filter (\<lambda>x. x \<in> set (map fst vec2)) (map fst vec1)
      in if intersection = [] then 0
         else
           let numerator = sum_list (map (\<lambda>x. dict_get vec1 x 0 * dict_get vec2 x 0) intersection);
               sum1 = sum_list (map (\<lambda>x. (dict_get vec1 x 0)\<^sup>2) (map fst vec1));
               sum2 = sum_list (map (\<lambda>x. (dict_get vec2 x 0)\<^sup>2) (map fst vec2));
               denominator =
                 R (R (sqrt (R (real_of_int sum1))) * R (sqrt (R (real_of_int sum2))))
           in if denominator > 0 then R (R (real_of_int numerator) / denominator) else 0)"

text \<open>The word list of the estimator: line 84 of main.py, line 58 of tasks.py.\<close>

definition text_words :: "unicode \<Rightarrow> pystr \<Rightarrow> pystr list" where
  "text_words U t = findall_runs (uni_isword U) (uni_lower U t)"

text \<open>The score map after the loop over the vocabularies, before the readability adjustment.\<close>

definition similarity_scores :: "rounding \<Rightarrow> pystr list \<Rightarrow> (int \<times> real) list" where
  "similarity_scores R words =
     foldl (\<lambda>scores (year, vocab).
              dict_set scores year
                (R (safe_cosine_similarity R (Counter words) (map (\<lambda>w. (w, 1)) vocab) * 1000)))
           [] ARCHAIC_VOCABULARY"

text \<open>The readability adjustment of the score map.\<close>

definition adjust_scores ::
  "rounding \<Rightarrow> real \<Rightarrow> (int \<times> real) list \<Rightarrow> (int \<times> real) list" where
  "adjust_scores R readability scores =
     (if readability < 40 then
        (let scores1 = dict_set scores 1300 (R (dict_get scores 1300 0 + 500))
         in dict_set scores1 1500 (R (dict_get scores1 1500 0 + 300)))
      else if readability > 70 then dict_set scores 1900 (R (dict_get scores 1900 0 + 500))
      else scores)"

definition archaic_words :: "pystr list" where
  "archaic_words = concat (map snd ARCHAIC_VOCABULARY)"

definition analyze_text_chronology ::
  "rounding \<Rightarrow> unicode \<Rightarrow> pystr option \<Rightarrow> py_exception + int \<times> int" where
  "analyze_text_chronology R U text =
     (case text of
        None \<Rightarrow> Inl TypeError
      | Some t \<Rightarrow>
          if t = [] \<or> length (strip U t) < 5 then Inr (1500, 0)
          else
            let words = text_words U t
            in if words = [] then Inr (1500, 0)
               else
                 let scores = similarity_scores R words;
                     readability = safe_calculate_flesch_reading_ease R U (Some t);
                     scores = adjust_scores R readability scores
                 in case max_key scores of
                      None \<Rightarrow> Inr (1500, 0)
                    | Some best_year \<Rightarrow>
                        Inr (best_year,
                             int (length (filter (\<lambda>word. word \<in> set archaic_words) words))))"

text \<open>
  The score map from which line 107 of main.py (line 81 of tasks.py) selects the year:
  the similarity scores with the readability adjustment applied.
\<close>

definition score_map :: "rounding \<Rightarrow> unicode \<Rightarrow> pystr \<Rightarrow> (int \<times> real) list" where
  "score_map R U t =
     adjust_scores R (safe_calculate_flesch_reading_ease R U (Some t))
       (similarity_scores R (text_words U t))"

text \<open>
  The matched-layer count in the words of the specification: the union of the four era
  vocabularies, and the number of positions of the word list whose token belongs to a
  set (an occurrence is a position, so a repeated word counts once per occurrence).
\<close>

definition era_union :: "pystr set" where
  "era_union = \<Union> (set ` snd ` set ARCHAIC_VOCABULARY)"

definition token_occurrences :: "pystr set \<Rightarrow> pystr list \<Rightarrow> nat" where
  "token_occurrences A ws = card (Set.filter (\<lambda>i. ws ! i \<in> A) {..<length ws})"

section \<open>The Celery task (calculator/tasks.py)\<close>

text \<open>The JSON body that both front ends POST to the collector.\<close>

record result_data =
  research_request_id :: int
  result_from_year :: int
  result_to_year :: int
  matched_layers :: int
  auth_token :: pystr

text \<open>
  \<open>random.choice\<close> and \<open>random.randint\<close> draw from the generator's raw output, here a
  natural number \<open>r\<close> that ranges over all values: \<open>random.choice(xs)\<close> is an element
  of \<open>xs\<close> at an index below \<open>len(xs)\<close>, \<open>random.randint(a, b)\<close> an integer from
  \<open>a\<close> to \<open>b\<close>, both ends included.
\<close>

definition random_choice :: "nat \<Rightarrow> 'a list \<Rightarrow> 'a" where
  "random_choice r xs = xs ! (r mod length xs)"

definition random_randint :: "nat \<Rightarrow> int \<Rightarrow> int \<Rightarrow> int" where
  "random_randint r a b = a + int (r mod nat (b - a + 1))"

text \<open>
  What one call of \<open>requests.post\<close> does: it returns a response with a status code, or
  raises \<open>requests.ConnectionError\<close>, or raises another exception (a timeout, say).
\<close>

datatype post_outcome = Status nat | ConnectFailed | OtherFailure

text \<open>The dictionary the task returns: \<open>{"status": "success", "request_id": id}\<close> or
  \<open>{"status": "failed", "error": ...}\<close>.\<close>

datatype task_return = Success int | Failed

text \<open>
  \<open>self.retry(countdown=c)\<close> is Celery's \<open>Task.retry\<close>, called inside a worker. With
  \<open>request.retries\<close> the number of retries this task has already had, it raises
  \<open>MaxRetriesExceededError\<close> when \<open>request.retries + 1\<close> exceeds the task's
  \<open>max_retries\<close> (3, from the decorator \<open>@shared_task(bind=True, max_retries=3)\<close>);
  otherwise it sends the task to the queue again, to run after \<open>c\<close> seconds with
  \<open>request.retries + 1\<close>, and raises \<open>Retry\<close>.
\<close>

definition task_max_retries :: nat where
  "task_max_retries = 3"

definition self_retry :: "nat \<Rightarrow> nat \<Rightarrow> py_exception" where
  "self_retry request_retries countdown =
     (if request_retries + 1 > task_max_retries then MaxRetriesExceededError
      else Retry countdown)"

text \<open>The local variable \<open>max_retries = 3\<close> of line 114.\<close>

definition max_retries :: nat where
  "max_retries = 3"

text \<open>
  The loop \<open>for attempt in range(max_retries)\<close>. The network is a function \<open>post\<close>
  from the number of POSTs made so far (by any run of the task) to the outcome of the
  next one; \<open>sent\<close> is the list of bodies POSTed so far. A \<open>raise\<close> leaves the loop
  and the task: the outer handler of line 148 logs the exception and raises it again.
\<close>

fun post_attempts ::
  "nat list \<Rightarrow> nat \<Rightarrow> (nat \<Rightarrow> post_outcome) \<Rightarrow> result_data \<Rightarrow> result_data list
     \<Rightarrow> (py_exception + task_return) \<times> result_data list" where
  "post_attempts [] request_retries post body sent = (Inr Failed, sent)"
| "post_attempts (attempt # rest) request_retries post body sent =
     (case post (length sent) of
        Status status_code \<Rightarrow>
          if status_code = 200 then (Inr (Success (research_request_id body)), sent @ [body])
          else post_attempts rest request_retries post body (sent @ [body])
      | ConnectFailed \<Rightarrow>
          if attempt < max_retries - 1 then (Inl (self_retry request_retries 5), sent @ [body])
          else (Inl ConnectionError, sent @ [body])
      | OtherFailure \<Rightarrow>
          if attempt < max_retries - 1 then (Inl (self_retry request_retries 5), sent @ [body])
          else (Inl OtherException, sent @ [body]))"

text \<open>Lines 95 to 109: the estimate, the random fallback, the body to send.\<close>

definition task_result_data ::
  "rounding \<Rightarrow> unicode \<Rightarrow> pystr \<Rightarrow> nat \<times> nat \<Rightarrow> int \<Rightarrow> pystr option
     \<Rightarrow> py_exception + result_data" where
  "task_result_data R U AUTH_TOKEN rnd request_id text =
     (case analyze_text_chronology R U text of
        Inl e \<Rightarrow> Inl e
      | Inr (calculated_year, matched_count) \<Rightarrow>
          let (calculated_year, matched_count) =
                (if matched_count = 0
                 then (random_choice (fst rnd) [1300, 1500, 1700, 1900],
                       random_randint (snd rnd) 1 5)
                 else (calculated_year, matched_count))
          in Inr \<lparr>research_request_id = request_id,
                  result_from_year = calculated_year,
                  result_to_year = calculated_year + 50,
                  matched_layers = matched_count,
                  auth_token = AUTH_TOKEN\<rparr>)"

text \<open>One run of the task, with \<open>request.retries = request_retries\<close>.\<close>

definition calculate_chrono_async ::
  "rounding \<Rightarrow> unicode \<Rightarrow> pystr \<Rightarrow> nat \<Rightarrow> nat \<times> nat \<Rightarrow> (nat \<Rightarrow> post_outcome)
     \<Rightarrow> result_data list
     \<Rightarrow> int \<Rightarrow> pystr option \<Rightarrow> (py_exception + task_return) \<times> result_data list" where
  "calculate_chrono_async R U AUTH_TOKEN request_retries rnd post sent request_id text =
     (case task_result_data R U AUTH_TOKEN rnd request_id text of
        Inl e \<Rightarrow> (Inl e, sent)
      | Inr body \<Rightarrow> post_attempts [0..<max_retries] request_retries post body sent)"

text \<open>
  The Celery worker: it runs the task, and when the run ends in \<open>Retry\<close> it runs the
  task again after the countdown, with \<open>request.retries\<close> one higher and fresh random
  numbers (\<open>rnd\<close> gives those of each run). The result is how the last run ended, every
  body POSTed, and the sum of the countdowns waited.
\<close>

function celery_worker ::
  "rounding \<Rightarrow> unicode \<Rightarrow> pystr \<Rightarrow> (nat \<Rightarrow> nat \<times> nat) \<Rightarrow> (nat \<Rightarrow> post_outcome) \<Rightarrow> int
     \<Rightarrow> pystr option
     \<Rightarrow> nat \<Rightarrow> result_data list \<Rightarrow> nat
     \<Rightarrow> (py_exception + task_return) \<times> result_data list \<times> nat" where
  "celery_worker R U AUTH_TOKEN rnd post request_id text request_retries sent waited =
     (case calculate_chrono_async R U AUTH_TOKEN request_retries (rnd request_retries) post sent
             request_id text of
        (Inl (Retry countdown), sent') \<Rightarrow>
          if request_retries < task_max_retries
          then celery_worker R U AUTH_TOKEN rnd post request_id text (Suc request_retries) sent'
                 (waited + countdown)
          else (Inl (Retry countdown), sent', waited)
      | (r, sent') \<Rightarrow> (r, sent', waited))"
  by pat_completeness auto
termination
  by (relation "measure (\<lambda>(R, U, tok, rnd, post, rid, text, rr, sent, waited). task_max_retries - rr)")
     auto

declare celery_worker.simps [simp del]

section \<open>The synchronous front end (main.py)\<close>

record ChronoRequest =
  req_research_request_id :: int
  req_auth_token :: pystr
  req_text_for_analysis :: "pystr option"
  req_purpose :: "pystr option"

record ChronoResult =
  res_status :: string
  res_year :: "int option"
  res_matched_layers :: "int option"
  res_error :: "string option"

text \<open>
  How the inner \<open>try\<close> of lines 143 to 154 ends: the collector accepted the POST, or
  \<open>httpx.HTTPError\<close> was raised (no connection, a timeout, a status that
  \<open>raise_for_status\<close> rejects), or another exception was. Both handlers only log.
\<close>

datatype delivery = Accepted | HTTPErrorRaised | UnexpectedRaised

text \<open>
  The endpoint returns its \<open>ChronoResult\<close>, or raises \<open>HTTPException(403)\<close>. The model
  returns with the result the bodies it POSTed and whether the collector accepted.
\<close>

definition calculate_chrono ::
  "rounding \<Rightarrow> unicode \<Rightarrow> pystr \<Rightarrow> delivery \<Rightarrow> ChronoRequest
     \<Rightarrow> py_exception + ChronoResult \<times> result_data list \<times> bool" where
  "calculate_chrono R U AUTH_TOKEN_EXPECTED d request =
     (if req_auth_token request \<noteq> AUTH_TOKEN_EXPECTED then Inl (HTTPException 403)
      else if (case req_text_for_analysis request of
                 None \<Rightarrow> True | Some t \<Rightarrow> t = [] \<or> strip U t = [])
      then Inr (\<lparr>res_status = ''skipped'', res_year = None, res_matched_layers = None,
                 res_error = Some ''no text''\<rparr>, [], False)
      else
        (case analyze_text_chronology R U (req_text_for_analysis request) of
           Inl e \<Rightarrow>
             Inr (\<lparr>res_status = ''error'', res_year = None, res_matched_layers = None,
                   res_error = Some ''exception''\<rparr>, [], False)
         | Inr (calculated_year, matched_count) \<Rightarrow>
             let result_data = \<lparr>research_request_id = req_research_request_id request,
                                result_from_year = calculated_year,
                                result_to_year = calculated_year + 50,
                                matched_layers = matched_count,
                                auth_token = AUTH_TOKEN_EXPECTED\<rparr>
             in Inr (\<lparr>res_status = ''success'', res_year = Some calculated_year,
                      res_matched_layers = Some matched_count, res_error = None\<rparr>,
                     [result_data], d = Accepted)))"

section \<open>Dictionaries, the score map and the selection of the maximum\<close>

lemma dict_set_keys_present:
  "k \<in> fst ` set d \<Longrightarrow> map fst (dict_set d k v) = map fst d"
  by (induction d) force+

lemma dict_set_fresh:
  "k \<notin> fst ` set d \<Longrightarrow> dict_set d k v = d @ [(k, v)]"
  by (induction d) auto

lemma dict_set_key_set:
  "fst ` set (dict_set d k v) = insert k (fst ` set d)"
  by (induction d k v rule: dict_set.induct) (simp_all add: insert_commute)

lemma Counter_fold_keys:
  "fst ` set (foldl (\<lambda>c w. dict_set c w (dict_get c w 0 + 1)) acc ws) = fst ` set acc \<union> set ws"
  by (induction ws arbitrary: acc) (auto simp: dict_set_key_set)

lemma Counter_keys: "fst ` set (Counter ws) = set ws"
  by (simp add: Counter_def Counter_fold_keys)

lemma cosine_disjoint:
  "fst ` set vec1 \<inter> fst ` set vec2 = {} \<Longrightarrow> safe_cosine_similarity R vec1 vec2 = 0"
  by (auto simp: safe_cosine_similarity_def Let_def filter_empty_conv)

lemma foldl_dict_set_fresh:
  "distinct (map fst acc @ map fst l) \<Longrightarrow>
   foldl (\<lambda>scores (year, vocab). dict_set scores year (f vocab)) acc l
     = acc @ map (\<lambda>(year, vocab). (year, f vocab)) l"
proof (induction l arbitrary: acc)
  case Nil
  then show ?case by simp
next
  case (Cons a l)
  obtain y v where a: "a = (y, v)" by (cases a)
  from Cons.prems a have fresh: "y \<notin> fst ` set acc" by auto
  from Cons.prems a have "distinct (map fst (acc @ [(y, f v)]) @ map fst l)" by auto
  from Cons.IH[OF this] show ?case
    by (simp add: a dict_set_fresh[OF fresh])
qed

lemma similarity_scores_eq:
  "similarity_scores R words =
     map (\<lambda>(year, vocab).
            (year, R (safe_cosine_similarity R (Counter words) (map (\<lambda>w. (w, 1)) vocab) * 1000)))
         ARCHAIC_VOCABULARY"
proof -
  have "distinct (map fst ([] :: (int \<times> real) list) @ map fst ARCHAIC_VOCABULARY)"
    by (simp add: ARCHAIC_VOCABULARY_def)
  from foldl_dict_set_fresh[OF this] show ?thesis
    by (simp add: similarity_scores_def)
qed

lemma similarity_scores_keys:
  "map fst (similarity_scores R words) = [1300, 1500, 1700, 1900]"
  by (simp add: similarity_scores_eq ARCHAIC_VOCABULARY_def)

lemma adjust_scores_keys:
  "map fst scores = [1300, 1500, 1700, 1900] \<Longrightarrow>
   map fst (adjust_scores R r scores) = [1300, 1500, 1700, 1900]"
proof -
  assume k: "map fst scores = [1300, 1500, 1700, 1900]"
  then have s: "fst ` set scores = {1300, 1500, 1700, 1900}"
    by (metis list.set_map list.simps(15) empty_set)
  show ?thesis
    by (simp add: adjust_scores_def Let_def dict_set_keys_present dict_set_key_set s k)
qed

lemma max_from_first:
  "(max_from b d = fst b \<and> (\<forall>x \<in> set d. snd x \<le> snd b))
   \<or> (\<exists>xs r ys. d = xs @ r # ys \<and> max_from b d = fst r \<and> snd b < snd r
         \<and> (\<forall>x \<in> set xs. snd x < snd r) \<and> (\<forall>x \<in> set ys. snd x \<le> snd r))"
proof (induction d arbitrary: b)
  case Nil
  then show ?case by simp
next
  case (Cons kv d)
  let ?b = "if snd b < snd kv then kv else b"
  from Cons.IH[of ?b] consider
    (keep) "max_from ?b d = fst ?b" "\<forall>x \<in> set d. snd x \<le> snd ?b"
  | (later) xs r ys where "d = xs @ r # ys" "max_from ?b d = fst r" "snd ?b < snd r"
      "\<forall>x \<in> set xs. snd x < snd r" "\<forall>x \<in> set ys. snd x \<le> snd r"
    by blast
  then show ?case
  proof cases
    case keep
    show ?thesis
    proof (cases "snd b < snd kv")
      case True
      with keep have "kv # d = [] @ kv # d \<and> max_from b (kv # d) = fst kv \<and> snd b < snd kv
         \<and> (\<forall>x \<in> set []. snd x < snd kv) \<and> (\<forall>x \<in> set d. snd x \<le> snd kv)" by simp
      then show ?thesis by blast
    next
      case False
      with keep show ?thesis by auto
    qed
  next
    case later
    have "kv # d = (kv # xs) @ r # ys" using later(1) by simp
    moreover have "max_from b (kv # d) = fst r" using later(2) by simp
    moreover have "snd b < snd r" using later(3) by (auto split: if_splits)
    moreover have "\<forall>x \<in> set (kv # xs). snd x < snd r" using later(3,4) by (auto split: if_splits)
    ultimately show ?thesis using later(5) by blast
  qed
qed

lemma max_key_first_max:
  assumes "d \<noteq> []"
  shows "\<exists>xs r ys. d = xs @ r # ys \<and> max_key d = Some (fst r)
           \<and> (\<forall>x \<in> set xs. snd x < snd r) \<and> (\<forall>x \<in> set ys. snd x \<le> snd r)"
proof -
  from assms obtain b d' where d: "d = b # d'" by (cases d) auto
  from max_from_first[of b d'] show ?thesis
  proof
    assume "max_from b d' = fst b \<and> (\<forall>x \<in> set d'. snd x \<le> snd b)"
    then have "d = [] @ b # d' \<and> max_key d = Some (fst b)
       \<and> (\<forall>x \<in> set []. snd x < snd b) \<and> (\<forall>x \<in> set d'. snd x \<le> snd b)"
      by (simp add: d max_key_def)
    then show ?thesis by blast
  next
    assume "\<exists>xs r ys. d' = xs @ r # ys \<and> max_from b d' = fst r \<and> snd b < snd r
         \<and> (\<forall>x \<in> set xs. snd x < snd r) \<and> (\<forall>x \<in> set ys. snd x \<le> snd r)"
    then obtain xs r ys where h: "d' = xs @ r # ys" "max_from b d' = fst r" "snd b < snd r"
      "\<forall>x \<in> set xs. snd x < snd r" "\<forall>x \<in> set ys. snd x \<le> snd r" by blast
    then have "d = (b # xs) @ r # ys \<and> max_key d = Some (fst r)
       \<and> (\<forall>x \<in> set (b # xs). snd x < snd r) \<and> (\<forall>x \<in> set ys. snd x \<le> snd r)"
      by (simp add: d max_key_def)
    then show ?thesis by blast
  qed
qed

lemma score_map_keys: "map fst (score_map R U t) = [1300, 1500, 1700, 1900]"
  by (simp add: score_map_def adjust_scores_keys similarity_scores_keys)

lemma analyze_scored:
  assumes "t \<noteq> []" "5 \<le> length (strip U t)" "text_words U t \<noteq> []"
  shows "\<exists>best_year. max_key (score_map R U t) = Some best_year \<and>
           analyze_text_chronology R U (Some t) =
             Inr (best_year,
                  int (length (filter (\<lambda>word. word \<in> set archaic_words) (text_words U t))))"
proof -
  have "score_map R U t \<noteq> []" using score_map_keys[of R U t] by auto
  then obtain y where y: "max_key (score_map R U t) = Some y"
    by (cases "score_map R U t") (auto simp: max_key_def)
  with assms show ?thesis
    by (simp add: analyze_text_chronology_def Let_def score_map_def)
qed

lemma archaic_words_union: "set archaic_words = era_union"
  by (simp add: archaic_words_def era_union_def)

lemma filter_length_occurrences:
  "length (filter (\<lambda>w. w \<in> A) ws) = token_occurrences A ws"
proof -
  have "{i. i < length ws \<and> ws ! i \<in> A} = Set.filter (\<lambda>i. ws ! i \<in> A) {..<length ws}"
    by auto
  then show ?thesis
    by (simp add: token_occurrences_def length_filter_conv_card)
qed

lemma vocab_in_archaic:
  "(year, vocab) \<in> set ARCHAIC_VOCABULARY \<Longrightarrow> set vocab \<subseteq> set archaic_words"
  by (auto simp: archaic_words_def)

lemma no_match_scores:
  assumes "\<forall>w \<in> set words. w \<notin> set archaic_words"
  shows "similarity_scores R words = [(1300, R 0), (1500, R 0), (1700, R 0), (1900, R 0)]"
proof -
  have z: "safe_cosine_similarity R (Counter words) (map (\<lambda>w. (w, 1)) vocab) = 0"
    if "(year, vocab) \<in> set ARCHAIC_VOCABULARY" for year vocab
  proof (rule cosine_disjoint)
    have "fst ` set (map (\<lambda>w. (w, 1::int)) vocab) = set vocab" by (simp add: image_image)
    then show "fst ` set (Counter words) \<inter> fst ` set (map (\<lambda>w. (w, 1)) vocab) = {}"
      using assms vocab_in_archaic[OF that] by (auto simp: Counter_keys)
  qed
  have "similarity_scores R words = map (\<lambda>(year, vocab). (year, R 0)) ARCHAIC_VOCABULARY"
    unfolding similarity_scores_eq by (rule map_cong) (auto simp: z)
  then show ?thesis by (simp add: ARCHAIC_VOCABULARY_def)
qed

lemma analyze_no_match:
  assumes "t \<noteq> []" "5 \<le> length (strip U t)" "text_words U t \<noteq> []"
    and "\<forall>w \<in> set (text_words U t). w \<notin> era_union"
    and "40 \<le> safe_calculate_flesch_reading_ease R U (Some t)"
    and "safe_calculate_flesch_reading_ease R U (Some t) \<le> 70"
  shows "score_map R U t = [(1300, R 0), (1500, R 0), (1700, R 0), (1900, R 0)]"
    and "analyze_text_chronology R U (Some t) = Inr (1300, 0)"
proof -
  have nm: "\<forall>w \<in> set (text_words U t). w \<notin> set archaic_words"
    using assms(4) by (simp add: archaic_words_union)
  show sc: "score_map R U t = [(1300, R 0), (1500, R 0), (1700, R 0), (1900, R 0)]"
    using assms(5,6) by (simp add: score_map_def adjust_scores_def no_match_scores[OF nm])
  have "filter (\<lambda>word. word \<in> set archaic_words) (text_words U t) = []"
    using nm by (simp add: filter_empty_conv)
  with analyze_scored[OF assms(1-3), where R = R] sc
  show "analyze_text_chronology R U (Some t) = Inr (1300, 0)"
    by (simp add: max_key_def)
qed

lemma strip_Nil: "strip U [] = []"
  by (simp add: strip_def)

lemma ieee_round_0: "ieee_round 0 = 0"
  by (simp add: ieee_round_def)

lemma hello_facts:
  "str_of ''hello'' \<noteq> []"
  "5 \<le> length (strip ascii_tables (str_of ''hello''))"
  "length (strip ascii_tables (str_of ''hello'')) < 10"
  "text_words ascii_tables (str_of ''hello'') = [str_of ''hello'']"
  "\<forall>w \<in> set (text_words ascii_tables (str_of ''hello'')). w \<notin> era_union"
  by code_simp+

lemma hello_readability:
  "safe_calculate_flesch_reading_ease R ascii_tables (Some (str_of ''hello'')) = 50"
  using hello_facts(3) by (simp add: safe_calculate_flesch_reading_ease_def)

lemma analyze_hello:
  "analyze_text_chronology ieee_round ascii_tables (Some (str_of ''hello'')) = Inr (1300, 0)"
  by (rule analyze_no_match(2)) (simp_all add: hello_facts hello_readability)

section \<open>The guards of the estimator and of the readability index\<close>

text \<open>
  C6, as amended. For every input string that is empty, or whose stripped length is
  below 5, or in which the tokenizer finds no word, the estimator returns exactly
  \<open>(1500, 0)\<close>.
\<close>

theorem short_input_default:
  "t = [] \<or> length (strip U t) < 5 \<or> text_words U t = [] \<Longrightarrow>
   analyze_text_chronology R U (Some t) = Inr (1500, 0)"
  by (auto simp: analyze_text_chronology_def Let_def)

theorem short_input_default_witness:
  "length (strip ascii_tables (str_of '' ab  '')) < 5
   \<and> analyze_text_chronology ieee_round ascii_tables (Some (str_of '' ab  '')) = Inr (1500, 0)
   \<and> text_words ascii_tables (str_of ''?!...!'') = []
   \<and> analyze_text_chronology ieee_round ascii_tables (Some (str_of ''?!...!'')) = Inr (1500, 0)
   \<and> analyze_text_chronology ieee_round ascii_tables (Some []) = Inr (1500, 0)"
proof -
  have a: "length (strip ascii_tables (str_of '' ab  '')) < 5" by code_simp
  have b: "text_words ascii_tables (str_of ''?!...!'') = []" by code_simp
  show ?thesis
    using a b short_input_default[of "str_of '' ab  ''" ascii_tables ieee_round]
      short_input_default[of "str_of ''?!...!''" ascii_tables ieee_round]
      short_input_default[of "[]" ascii_tables ieee_round]
    by simp
qed

text \<open>
  C6 as stated also promises \<open>(1500, 0)\<close> for a null text. The first statement of
  \<open>analyze_text_chronology\<close> logs \<open>len(text)\<close>, before the guard: on \<open>None\<close> the
  function raises \<open>TypeError\<close> and returns nothing.
\<close>

theorem null_input_counterexample:
  "analyze_text_chronology ieee_round ascii_tables None = Inl TypeError"
  by (simp add: analyze_text_chronology_def)

text \<open>
  C7. For every input (a string or \<open>None\<close>) the readability index lies between 0 and
  100, and for a text whose stripped length is below 10 it is the constant 50.
\<close>

theorem readability_bounds:
  "0 \<le> safe_calculate_flesch_reading_ease R U x
   \<and> safe_calculate_flesch_reading_ease R U x \<le> 100
   \<and> (length (strip U t) < 10 \<longrightarrow> safe_calculate_flesch_reading_ease R U (Some t) = 50)"
  by (simp add: safe_calculate_flesch_reading_ease_def Let_def split: option.split)

theorem readability_bounds_witness:
  "length (strip ascii_tables (str_of ''  thou art '')) < 10
   \<and> safe_calculate_flesch_reading_ease ieee_round ascii_tables (Some (str_of ''  thou art '')) = 50
   \<and> 0 \<le> safe_calculate_flesch_reading_ease ieee_round ascii_tables (Some (str_of ''hello world''))
   \<and> safe_calculate_flesch_reading_ease ieee_round ascii_tables (Some (str_of ''hello world'')) \<le> 100"
proof -
  have a: "length (strip ascii_tables (str_of ''  thou art '')) < 10" by code_simp
  show ?thesis
    using a readability_bounds[of ieee_round ascii_tables "Some (str_of ''hello world'')" "str_of ''  thou art ''"]
    by simp
qed

section \<open>Selection of the era and the matched-layer count\<close>

text \<open>
  C3. For every text that passes the guards, and for every rounding of the float
  operations, the score map has the four anchors as keys, in the order 1300, 1500,
  1700, 1900, and the estimator returns an anchor whose score, as computed in doubles,
  no other score exceeds; every anchor with the same score is this anchor or a later,
  larger year, so among tied anchors the lowest is returned.
\<close>

theorem best_era_selection:
  assumes "t \<noteq> []" "5 \<le> length (strip U t)" "text_words U t \<noteq> []"
  shows "map fst (score_map R U t) = [1300, 1500, 1700, 1900] \<and>
         (\<exists>year matched s.
            analyze_text_chronology R U (Some t) = Inr (year, matched)
            \<and> (year, s) \<in> set (score_map R U t)
            \<and> (\<forall>(y', s') \<in> set (score_map R U t). s' \<le> s \<and> (s' = s \<longrightarrow> year \<le> y')))"
proof -
  let ?sc = "score_map R U t"
  have keys: "map fst ?sc = [1300, 1500, 1700, 1900]" by (rule score_map_keys)
  then have ne: "?sc \<noteq> []" by auto
  from max_key_first_max[OF ne] obtain xs r ys where
    dec: "?sc = xs @ r # ys" and mk: "max_key ?sc = Some (fst r)"
    and before: "\<forall>x \<in> set xs. snd x < snd r" and after: "\<forall>x \<in> set ys. snd x \<le> snd r"
    by blast
  have "sorted_wrt (<) (map fst ?sc)" by (simp add: keys)
  then have later: "\<forall>x \<in> set ys. fst r < fst x"
    by (simp add: dec sorted_wrt_append)
  from analyze_scored[OF assms, where R = R] mk obtain matched where
    res: "analyze_text_chronology R U (Some t) = Inr (fst r, matched)" by auto
  have mem: "(fst r, snd r) \<in> set ?sc" by (simp add: dec)
  have "\<forall>x \<in> set ?sc. snd x \<le> snd r \<and> (snd x = snd r \<longrightarrow> fst r \<le> fst x)"
    using before after later by (auto simp: dec)
  then have "\<forall>(y', s') \<in> set ?sc. s' \<le> snd r \<and> (s' = snd r \<longrightarrow> fst r \<le> y')"
    by auto
  with res mem keys show ?thesis by blast
qed

theorem best_era_selection_witness:
  "5 \<le> length (strip ascii_tables (str_of ''hello''))
   \<and> text_words ascii_tables (str_of ''hello'') = [str_of ''hello'']
   \<and> score_map ieee_round ascii_tables (str_of ''hello'') = [(1300, 0), (1500, 0), (1700, 0), (1900, 0)]
   \<and> (\<exists>matched. analyze_text_chronology ieee_round ascii_tables (Some (str_of ''hello'')) = Inr (1300, matched))"
proof -
  let ?t = "str_of ''hello''"
  have c: "text_words ascii_tables ?t \<noteq> []" by (simp add: hello_facts)
  have f: "40 \<le> safe_calculate_flesch_reading_ease ieee_round ascii_tables (Some ?t)"
    "safe_calculate_flesch_reading_ease ieee_round ascii_tables (Some ?t) \<le> 70"
    by (simp_all add: hello_readability)
  have sc: "score_map ieee_round ascii_tables ?t = [(1300, 0), (1500, 0), (1700, 0), (1900, 0)]"
    using analyze_no_match(1)[OF hello_facts(1,2) c hello_facts(5) f]
    by (simp add: ieee_round_0)
  from best_era_selection[OF hello_facts(1,2) c, where R = ieee_round] obtain year matched s where
    res: "analyze_text_chronology ieee_round ascii_tables (Some ?t) = Inr (year, matched)"
    and mem: "(year, s) \<in> set (score_map ieee_round ascii_tables ?t)"
    and first: "\<forall>(y', s') \<in> set (score_map ieee_round ascii_tables ?t). s' \<le> s \<and> (s' = s \<longrightarrow> year \<le> y')"
    by blast
  from mem have s0: "s = 0" and yr: "year \<in> {1300, 1500, 1700, 1900}" by (auto simp: sc)
  from first s0 have "year \<le> 1300" by (simp add: sc)
  with yr have "year = 1300" by auto
  with res sc hello_facts show ?thesis by simp
qed

text \<open>
  C5. For every text that passes the guards the matched-layer count is the number of
  positions of the word list whose token is in the union of the four vocabularies; it
  is at least 0 and at most the number of tokens.
\<close>

theorem matched_layers_count:
  assumes "t \<noteq> []" "5 \<le> length (strip U t)" "text_words U t \<noteq> []"
  shows "\<exists>year matched.
           analyze_text_chronology R U (Some t) = Inr (year, matched)
           \<and> matched = int (token_occurrences era_union (text_words U t))
           \<and> 0 \<le> matched \<and> matched \<le> int (length (text_words U t))"
proof -
  from analyze_scored[OF assms, where R = R] obtain y where
    "analyze_text_chronology R U (Some t) =
       Inr (y, int (length (filter (\<lambda>word. word \<in> set archaic_words) (text_words U t))))"
    by blast
  moreover have "length (filter (\<lambda>word. word \<in> set archaic_words) (text_words U t))
                   = token_occurrences era_union (text_words U t)"
    by (simp add: archaic_words_union filter_length_occurrences)
  moreover have "token_occurrences era_union (text_words U t) \<le> length (text_words U t)"
    unfolding filter_length_occurrences[symmetric] by (rule length_filter_le)
  ultimately show ?thesis by simp
qed

theorem matched_layers_count_witness:
  "5 \<le> length (strip ascii_tables (str_of ''Thou hath, thou dost!''))
   \<and> length (text_words ascii_tables (str_of ''Thou hath, thou dost!'')) = 4
   \<and> token_occurrences era_union (text_words ascii_tables (str_of ''Thou hath, thou dost!'')) = 4
   \<and> (\<exists>year. analyze_text_chronology ieee_round ascii_tables (Some (str_of ''Thou hath, thou dost!''))
                = Inr (year, 4))"
proof -
  let ?t = "str_of ''Thou hath, thou dost!''"
  have a: "?t \<noteq> []" by code_simp
  have b: "5 \<le> length (strip ascii_tables ?t)" by code_simp
  have l: "length (text_words ascii_tables ?t) = 4" by code_simp
  then have c: "text_words ascii_tables ?t \<noteq> []" by auto
  have n: "token_occurrences era_union (text_words ascii_tables ?t) = 4" by code_simp
  show ?thesis
    using matched_layers_count[OF a b c, where R = ieee_round] b l n by simp
qed

text \<open>
  C9. For every text that passes the guards, has no token in any vocabulary and has a
  readability, as the program computes it in doubles, between 40 and 70, all four
  scores are 0 and the estimator returns \<open>(1300, 0)\<close>. The scores are the products
  \<open>0.0 * 1000\<close>: they are 0 because the rounding leaves 0, a double, unchanged
  (\<open>R 0 = 0\<close>), as every rounding to doubles does.
\<close>

theorem zero_match_selects_1300:
  assumes "t \<noteq> []" "5 \<le> length (strip U t)" "text_words U t \<noteq> []"
    and "\<forall>w \<in> set (text_words U t). w \<notin> era_union"
    and "40 \<le> safe_calculate_flesch_reading_ease R U (Some t)"
    and "safe_calculate_flesch_reading_ease R U (Some t) \<le> 70"
    and "R 0 = 0"
  shows "score_map R U t = [(1300, 0), (1500, 0), (1700, 0), (1900, 0)]
         \<and> analyze_text_chronology R U (Some t) = Inr (1300, 0)"
  using analyze_no_match[OF assms(1-6)] assms(7) by simp

theorem zero_match_selects_1300_witness:
  "5 \<le> length (strip ascii_tables (str_of ''hello''))
   \<and> text_words ascii_tables (str_of ''hello'') = [str_of ''hello'']
   \<and> safe_calculate_flesch_reading_ease ieee_round ascii_tables (Some (str_of ''hello'')) = 50
   \<and> score_map ieee_round ascii_tables (str_of ''hello'') = [(1300, 0), (1500, 0), (1700, 0), (1900, 0)]
   \<and> analyze_text_chronology ieee_round ascii_tables (Some (str_of ''hello'')) = Inr (1300, 0)"
proof -
  have c: "text_words ascii_tables (str_of ''hello'') \<noteq> []" by (simp add: hello_facts)
  have f: "40 \<le> safe_calculate_flesch_reading_ease ieee_round ascii_tables (Some (str_of ''hello''))"
    "safe_calculate_flesch_reading_ease ieee_round ascii_tables (Some (str_of ''hello'')) \<le> 70"
    by (simp_all add: hello_readability)
  show ?thesis
    using zero_match_selects_1300[OF hello_facts(1,2) c hello_facts(5) f ieee_round_0]
      hello_facts hello_readability
    by simp
qed

text \<open>
  C10, as amended. For every text whose stripped length is at least 5 and below 10 and
  in which the tokenizer finds at least one word, the readability index is 50, the
  score map is the map of similarity scores without any adjustment, and the year
  returned is the one \<open>max\<close> selects from the similarity scores.
\<close>

theorem short_text_no_adjustment:
  assumes "5 \<le> length (strip U t)" "length (strip U t) < 10" "text_words U t \<noteq> []"
  shows "safe_calculate_flesch_reading_ease R U (Some t) = 50
         \<and> score_map R U t = similarity_scores R (text_words U t)
         \<and> (\<exists>year matched.
               analyze_text_chronology R U (Some t) = Inr (year, matched)
               \<and> max_key (similarity_scores R (text_words U t)) = Some year)"
proof -
  have ne: "t \<noteq> []" using assms(1) by (auto simp: strip_Nil)
  have r: "safe_calculate_flesch_reading_ease R U (Some t) = 50"
    using assms(2) by (simp add: safe_calculate_flesch_reading_ease_def)
  have sc: "score_map R U t = similarity_scores R (text_words U t)"
    by (simp add: score_map_def r adjust_scores_def)
  from analyze_scored[OF ne assms(1,3), where R = R] r sc show ?thesis by auto
qed

theorem short_text_no_adjustment_witness:
  "5 \<le> length (strip ascii_tables (str_of ''hello''))
   \<and> length (strip ascii_tables (str_of ''hello'')) < 10
   \<and> text_words ascii_tables (str_of ''hello'') = [str_of ''hello'']
   \<and> safe_calculate_flesch_reading_ease ieee_round ascii_tables (Some (str_of ''hello'')) = 50
   \<and> score_map ieee_round ascii_tables (str_of ''hello'')
       = similarity_scores ieee_round (text_words ascii_tables (str_of ''hello''))"
proof -
  have c: "text_words ascii_tables (str_of ''hello'') \<noteq> []" by (simp add: hello_facts)
  show ?thesis
    using short_text_no_adjustment[OF hello_facts(2,3) c, where R = ieee_round] hello_facts
      hello_readability
    by simp
qed

text \<open>
  C10 as stated covers every text of stripped length 5 to 9. A text of six punctuation
  marks has that length and no word: the estimator returns the default \<open>(1500, 0)\<close>
  at the guard of line 85 and never scores, whereas the similarity scores of its
  (empty) word list would select 1300.
\<close>

theorem no_token_short_text_counterexample:
  "5 \<le> length (strip ascii_tables (str_of ''?!...!''))
   \<and> length (strip ascii_tables (str_of ''?!...!'')) < 10
   \<and> analyze_text_chronology ieee_round ascii_tables (Some (str_of ''?!...!'')) = Inr (1500, 0)
   \<and> max_key (similarity_scores ieee_round (text_words ascii_tables (str_of ''?!...!'')))
       = Some 1300"
proof -
  let ?t = "str_of ''?!...!''"
  have a: "5 \<le> length (strip ascii_tables ?t)" "length (strip ascii_tables ?t) < 10"
    by code_simp+
  have w: "text_words ascii_tables ?t = []" by code_simp
  have r: "analyze_text_chronology ieee_round ascii_tables (Some ?t) = Inr (1500, 0)"
    by (simp add: analyze_text_chronology_def w)
  have "similarity_scores ieee_round []
          = [(1300, ieee_round 0), (1500, ieee_round 0), (1700, ieee_round 0), (1900, ieee_round 0)]"
    by (rule no_match_scores) simp
  then have "max_key (similarity_scores ieee_round (text_words ascii_tables ?t)) = Some 1300"
    by (simp add: w max_key_def)
  with a r show ?thesis by simp
qed

section \<open>The results the two front ends produce\<close>

lemma max_key_in_keys: "max_key d = Some k \<Longrightarrow> k \<in> set (map fst d)"
proof -
  assume mk: "max_key d = Some k"
  then have "d \<noteq> []" by (auto simp: max_key_def)
  from max_key_first_max[OF this] mk show ?thesis by auto
qed

lemma analyze_guarded:
  "t = [] \<or> length (strip U t) < 5 \<or> text_words U t = [] \<Longrightarrow>
   analyze_text_chronology R U (Some t) = Inr (1500, 0)"
  by (auto simp: analyze_text_chronology_def Let_def)

lemma analyze_year_anchor:
  assumes "analyze_text_chronology R U x = Inr (year, matched)"
  shows "year \<in> {1300, 1500, 1700, 1900}"
proof (cases x)
  case None
  with assms show ?thesis by (simp add: analyze_text_chronology_def)
next
  case (Some t)
  show ?thesis
  proof (cases "t = [] \<or> length (strip U t) < 5 \<or> text_words U t = []")
    case True
    from analyze_guarded[OF this, where R = R] assms Some show ?thesis by simp
  next
    case False
    then have "t \<noteq> []" "5 \<le> length (strip U t)" "text_words U t \<noteq> []" by auto
    from analyze_scored[OF this, where R = R] assms Some
    have "max_key (score_map R U t) = Some year" by auto
    from max_key_in_keys[OF this] show ?thesis by (simp add: score_map_keys)
  qed
qed

lemma analyze_string_returns:
  "\<exists>year matched. analyze_text_chronology R U (Some t) = Inr (year, matched)"
proof (cases "t = [] \<or> length (strip U t) < 5 \<or> text_words U t = []")
  case True
  from analyze_guarded[OF this, where R = R] show ?thesis by simp
next
  case False
  then have "t \<noteq> []" "5 \<le> length (strip U t)" "text_words U t \<noteq> []" by auto
  from analyze_scored[OF this, where R = R] show ?thesis by blast
qed

lemma random_choice_anchor:
  "random_choice r [1300, 1500, 1700, 1900 :: int] \<in> {1300, 1500, 1700, 1900}"
proof -
  have "r mod 4 < 4" by simp
  then have "r mod 4 = 0 \<or> r mod 4 = 1 \<or> r mod 4 = 2 \<or> r mod 4 = 3" by linarith
  then show ?thesis by (auto simp: random_choice_def)
qed

lemma random_randint_1_5: "1 \<le> random_randint r 1 5 \<and> random_randint r 1 5 \<le> 5"
proof -
  have "r mod 5 < 5" by simp
  then show ?thesis by (simp add: random_randint_def)
qed

text \<open>The model leaves no outcome of the two draws out.\<close>

lemma random_choice_onto: "i < length xs \<Longrightarrow> random_choice i xs = xs ! i"
  by (simp add: random_choice_def)

lemma random_randint_onto: "a \<le> v \<Longrightarrow> v \<le> b \<Longrightarrow> random_randint (nat (v - a)) a b = v"
proof -
  assume "a \<le> v" "v \<le> b"
  then have "nat (v - a) < nat (b - a + 1)" by simp
  then have "nat (v - a) mod nat (b - a + 1) = nat (v - a)" by (rule mod_less)
  with \<open>a \<le> v\<close> show ?thesis by (simp add: random_randint_def)
qed

lemma task_result_data_year:
  assumes "task_result_data R U tok rnd rid x = Inr body"
  shows "result_from_year body \<in> {1300, 1500, 1700, 1900}"
proof -
  from assms obtain year matched where a: "analyze_text_chronology R U x = Inr (year, matched)"
    by (auto simp: task_result_data_def split: sum.splits)
  from analyze_year_anchor[OF a] have y: "year \<in> {1300, 1500, 1700, 1900}" .
  show ?thesis
  proof (cases "matched = 0")
    case True
    with assms a have "result_from_year body = random_choice (fst rnd) [1300, 1500, 1700, 1900]"
      by (auto simp: task_result_data_def)
    then show ?thesis using random_choice_anchor[of "fst rnd"] by simp
  next
    case False
    with assms a have "result_from_year body = year"
      by (auto simp: task_result_data_def)
    with y show ?thesis by simp
  qed
qed

lemma post_attempts_sent:
  "set (snd (post_attempts as rr post body sent)) \<subseteq> insert body (set sent)"
  by (induction as rr post body sent rule: post_attempts.induct)
     (auto split: post_outcome.splits if_splits)

lemma sync_result:
  assumes "req_auth_token request = tok" "req_text_for_analysis request = Some t"
    "strip U t \<noteq> []" "analyze_text_chronology R U (Some t) = Inr (year, matched)"
  shows "calculate_chrono R U tok d request =
           Inr (\<lparr>res_status = ''success'', res_year = Some year,
                 res_matched_layers = Some matched, res_error = None\<rparr>,
                [\<lparr>research_request_id = req_research_request_id request,
                  result_from_year = year, result_to_year = year + 50,
                  matched_layers = matched, auth_token = tok\<rparr>],
                d = Accepted)"
proof -
  have "t \<noteq> []" using assms(3) by (auto simp: strip_Nil)
  with assms show ?thesis by (simp add: calculate_chrono_def)
qed

lemma hello_strip: "strip ascii_tables (str_of ''hello'') \<noteq> []"
  using hello_facts(2) by auto

lemma task_hello:
  "task_result_data ieee_round ascii_tables (str_of ''111517'') (0, 0) 7 (Some (str_of ''hello''))
     = Inr \<lparr>research_request_id = 7, result_from_year = 1300, result_to_year = 1350,
            matched_layers = 1, auth_token = str_of ''111517''\<rparr>"
  by (simp add: task_result_data_def analyze_hello random_choice_def random_randint_def)

text \<open>
  C4. Every year the system produces is one of the anchors 1300, 1500, 1700, 1900: the
  year the estimator returns, the year in the body the Celery task sends (estimated or
  drawn by the fallback), and the year the synchronous front end returns and sends.
\<close>

theorem anchor_year_invariant:
  "(analyze_text_chronology R U x = Inr (year, matched) \<longrightarrow> year \<in> {1300, 1500, 1700, 1900})
   \<and> (task_result_data R U tok rnd rid x = Inr body
        \<longrightarrow> result_from_year body \<in> {1300, 1500, 1700, 1900})
   \<and> (calculate_chrono R U tok d request = Inr (res, sent, accepted)
        \<longrightarrow> (\<forall>y. res_year res = Some y \<longrightarrow> y \<in> {1300, 1500, 1700, 1900})
            \<and> (\<forall>b \<in> set sent. result_from_year b \<in> {1300, 1500, 1700, 1900}))"
proof -
  have "(\<forall>y. res_year res = Some y \<longrightarrow> y \<in> {1300, 1500, 1700, 1900})
        \<and> (\<forall>b \<in> set sent. result_from_year b \<in> {1300, 1500, 1700, 1900})"
    if c: "calculate_chrono R U tok d request = Inr (res, sent, accepted)"
  proof (cases "analyze_text_chronology R U (req_text_for_analysis request)")
    case (Inl e)
    with c show ?thesis
      by (auto simp: calculate_chrono_def split: if_splits)
  next
    case (Inr r)
    obtain y m where r: "r = (y, m)" by (cases r)
    from analyze_year_anchor[of R U "req_text_for_analysis request" y m] Inr r
    have "y \<in> {1300, 1500, 1700, 1900}" by simp
    with c Inr r show ?thesis
      by (auto simp: calculate_chrono_def Let_def split: if_splits)
  qed
  then show ?thesis
    using analyze_year_anchor[of R U x year matched]
      task_result_data_year[of R U tok rnd rid x body]
    by blast
qed

theorem anchor_year_invariant_witness:
  "analyze_text_chronology ieee_round ascii_tables (Some (str_of ''hello'')) = Inr (1300, 0)
   \<and> task_result_data ieee_round ascii_tables (str_of ''111517'') (0, 0) 7 (Some (str_of ''hello''))
       = Inr \<lparr>research_request_id = 7, result_from_year = 1300, result_to_year = 1350,
              matched_layers = 1, auth_token = str_of ''111517''\<rparr>
   \<and> calculate_chrono ieee_round ascii_tables (str_of ''111517'') Accepted
        \<lparr>req_research_request_id = 7, req_auth_token = str_of ''111517'',
         req_text_for_analysis = Some (str_of ''hello''), req_purpose = None\<rparr>
       = Inr (\<lparr>res_status = ''success'', res_year = Some 1300,
               res_matched_layers = Some 0, res_error = None\<rparr>,
              [\<lparr>research_request_id = 7, result_from_year = 1300, result_to_year = 1350,
                matched_layers = 0, auth_token = str_of ''111517''\<rparr>],
              True)
   \<and> (1300 :: int) \<in> {1300, 1500, 1700, 1900}"
  using anchor_year_invariant[of ieee_round ascii_tables "Some (str_of ''hello'')" 1300 0
      "str_of ''111517''" "(0, 0)" 7
      "\<lparr>research_request_id = 7, result_from_year = 1300, result_to_year = 1350,
        matched_layers = 1, auth_token = str_of ''111517''\<rparr>"
      Accepted
      "\<lparr>req_research_request_id = 7, req_auth_token = str_of ''111517'',
        req_text_for_analysis = Some (str_of ''hello''), req_purpose = None\<rparr>"
      "\<lparr>res_status = ''success'', res_year = Some 1300,
        res_matched_layers = Some 0, res_error = None\<rparr>"
      "[\<lparr>research_request_id = 7, result_from_year = 1300, result_to_year = 1350,
         matched_layers = 0, auth_token = str_of ''111517''\<rparr>]"
      True]
    analyze_hello task_hello
    sync_result[of
      "\<lparr>req_research_request_id = 7, req_auth_token = str_of ''111517'',
        req_text_for_analysis = Some (str_of ''hello''), req_purpose = None\<rparr>"
      "str_of ''111517''" "str_of ''hello''" ascii_tables ieee_round 1300 0 Accepted]
    hello_strip
  by simp

text \<open>
  C2, as amended. In the Celery task, whenever the estimator returns a matched-layer
  count of 0, the body sent to the collector has a year among 1300, 1500, 1700, 1900
  and a match count from 1 to 5, for every outcome \<open>rnd\<close> of the random draws, and
  the run of the task POSTs no other body.
\<close>

theorem fallback_on_zero_matches:
  assumes "analyze_text_chronology R U x = Inr (year, 0)"
  shows "\<exists>body. task_result_data R U tok rnd rid x = Inr body
           \<and> result_from_year body \<in> {1300, 1500, 1700, 1900}
           \<and> 1 \<le> matched_layers body \<and> matched_layers body \<le> 5
           \<and> set (snd (calculate_chrono_async R U tok rr rnd post [] rid x)) \<subseteq> {body}"
proof -
  let ?body = "\<lparr>research_request_id = rid,
                 result_from_year = random_choice (fst rnd) [1300, 1500, 1700, 1900],
                 result_to_year = random_choice (fst rnd) [1300, 1500, 1700, 1900] + 50,
                 matched_layers = random_randint (snd rnd) 1 5,
                 auth_token = tok\<rparr>"
  have b: "task_result_data R U tok rnd rid x = Inr ?body"
    using assms by (simp add: task_result_data_def)
  have "set (snd (calculate_chrono_async R U tok rr rnd post [] rid x)) \<subseteq> {?body}"
    using post_attempts_sent[of "[0..<max_retries]" rr post ?body "[]"]
    by (simp add: calculate_chrono_async_def b)
  with b random_choice_anchor[of "fst rnd"] random_randint_1_5[of "snd rnd"]
  show ?thesis by simp
qed

theorem fallback_on_zero_matches_witness:
  "analyze_text_chronology ieee_round ascii_tables (Some (str_of ''hello'')) = Inr (1300, 0)
   \<and> task_result_data ieee_round ascii_tables (str_of ''111517'') (6, 9) 7 (Some (str_of ''hello''))
       = Inr \<lparr>research_request_id = 7, result_from_year = 1700, result_to_year = 1750,
              matched_layers = 5, auth_token = str_of ''111517''\<rparr>"
proof -
  from fallback_on_zero_matches[OF analyze_hello, of "str_of ''111517''" "(6, 9)" 7 0
      "\<lambda>_. ConnectFailed"]
  obtain body where
    "task_result_data ieee_round ascii_tables (str_of ''111517'') (6, 9) 7 (Some (str_of ''hello'')) = Inr body"
    by blast
  moreover have
    "task_result_data ieee_round ascii_tables (str_of ''111517'') (6, 9) 7 (Some (str_of ''hello''))
       = Inr \<lparr>research_request_id = 7, result_from_year = 1700, result_to_year = 1750,
              matched_layers = 5, auth_token = str_of ''111517''\<rparr>"
    by (simp add: task_result_data_def analyze_hello random_choice_def random_randint_def)
  ultimately show ?thesis using analyze_hello by simp
qed

text \<open>
  C2 as stated speaks of the result delivered downstream by either front end. The
  synchronous front end of main.py has no fallback: for the text \<open>hello\<close> the
  estimator returns \<open>(1300, 0)\<close>, and the match count 0 is both sent to the
  collector and returned to the caller.
\<close>

theorem sync_front_end_zero_matches_counterexample:
  "analyze_text_chronology ieee_round ascii_tables (Some (str_of ''hello'')) = Inr (1300, 0)
   \<and> calculate_chrono ieee_round ascii_tables (str_of ''111517'') Accepted
        \<lparr>req_research_request_id = 7, req_auth_token = str_of ''111517'',
         req_text_for_analysis = Some (str_of ''hello''), req_purpose = None\<rparr>
       = Inr (\<lparr>res_status = ''success'', res_year = Some 1300,
               res_matched_layers = Some 0, res_error = None\<rparr>,
              [\<lparr>research_request_id = 7, result_from_year = 1300, result_to_year = 1350,
                matched_layers = 0, auth_token = str_of ''111517''\<rparr>],
              True)"
  using sync_result[of
      "\<lparr>req_research_request_id = 7, req_auth_token = str_of ''111517'',
        req_text_for_analysis = Some (str_of ''hello''), req_purpose = None\<rparr>"
      "str_of ''111517''" "str_of ''hello''" ascii_tables ieee_round 1300 0 Accepted]
    hello_strip analyze_hello
  by simp

text \<open>
  C8. In the synchronous front end, for every request with the expected token and a
  text that is not blank, whose estimate is \<open>(year, matched)\<close>, the caller receives
  the status \<open>success\<close> with exactly that year and match count, whatever happened to
  the delivery \<open>d\<close>: accepted, \<open>httpx.HTTPError\<close> or any other exception.
\<close>

theorem delivery_failure_keeps_result:
  assumes "req_auth_token request = tok" "req_text_for_analysis request = Some t"
    "strip U t \<noteq> []" "analyze_text_chronology R U (Some t) = Inr (year, matched)"
  shows "calculate_chrono R U tok d request =
           Inr (\<lparr>res_status = ''success'', res_year = Some year,
                 res_matched_layers = Some matched, res_error = None\<rparr>,
                [\<lparr>research_request_id = req_research_request_id request,
                  result_from_year = year, result_to_year = year + 50,
                  matched_layers = matched, auth_token = tok\<rparr>],
                d = Accepted)"
  using assms by (rule sync_result)

theorem delivery_failure_keeps_result_witness:
  "analyze_text_chronology ieee_round ascii_tables (Some (str_of ''hello'')) = Inr (1300, 0)
   \<and> calculate_chrono ieee_round ascii_tables (str_of ''111517'') HTTPErrorRaised
        \<lparr>req_research_request_id = 7, req_auth_token = str_of ''111517'',
         req_text_for_analysis = Some (str_of ''hello''), req_purpose = None\<rparr>
       = Inr (\<lparr>res_status = ''success'', res_year = Some 1300,
               res_matched_layers = Some 0, res_error = None\<rparr>,
              [\<lparr>research_request_id = 7, result_from_year = 1300, result_to_year = 1350,
                matched_layers = 0, auth_token = str_of ''111517''\<rparr>],
              False)"
  using delivery_failure_keeps_result[of
      "\<lparr>req_research_request_id = 7, req_auth_token = str_of ''111517'',
        req_text_for_analysis = Some (str_of ''hello''), req_purpose = None\<rparr>"
      "str_of ''111517''" "str_of ''hello''" ascii_tables ieee_round 1300 0 HTTPErrorRaised]
    hello_strip analyze_hello
  by simp

section \<open>Delivery with retries in the Celery task\<close>

text \<open>
  A run of the task whose first POST raises \<open>ConnectionError\<close> (or any other
  exception) ends at once: with \<open>attempt = 0\<close> the handler raises the result of
  \<open>self.retry(countdown=5)\<close>, which leaves the loop and the task. The loop reaches
  its second and third iteration only after a response whose status is not 200.
\<close>

lemma task_result_data_string:
  "\<exists>body. task_result_data R U tok rnd rid (Some t) = Inr body \<and> research_request_id body = rid"
proof -
  from analyze_string_returns[of R U t] obtain year matched where
    "analyze_text_chronology R U (Some t) = Inr (year, matched)" by blast
  then show ?thesis
    by (cases "matched = 0") (simp_all add: task_result_data_def)
qed

lemma first_post_fails:
  "post (length sent) = ConnectFailed \<Longrightarrow>
   post_attempts [0..<max_retries] rr post body sent = (Inl (self_retry rr 5), sent @ [body])"
  by (simp add: max_retries_def upt_rec)

lemma first_post_accepted:
  "post (length sent) = Status 200 \<Longrightarrow>
   post_attempts [0..<max_retries] rr post body sent
     = (Inr (Success (research_request_id body)), sent @ [body])"
  by (simp add: max_retries_def upt_rec)

lemma run_raises:
  assumes "post (length sent) = ConnectFailed"
  shows "\<exists>body. calculate_chrono_async R U tok rr rnd post sent rid (Some t)
                  = (Inl (self_retry rr 5), sent @ [body])"
proof -
  from task_result_data_string[of R U tok rnd rid t] obtain body where
    "task_result_data R U tok rnd rid (Some t) = Inr body" by blast
  with assms have "calculate_chrono_async R U tok rr rnd post sent rid (Some t)
                     = (Inl (self_retry rr 5), sent @ [body])"
    by (simp add: calculate_chrono_async_def first_post_fails)
  then show ?thesis by blast
qed

lemma run_accepted:
  assumes "post (length sent) = Status 200"
  shows "\<exists>body. calculate_chrono_async R U tok rr rnd post sent rid (Some t)
                  = (Inr (Success rid), sent @ [body])"
proof -
  from task_result_data_string[of R U tok rnd rid t] obtain body where
    "task_result_data R U tok rnd rid (Some t) = Inr body" "research_request_id body = rid"
    by blast
  with assms have "calculate_chrono_async R U tok rr rnd post sent rid (Some t)
                     = (Inr (Success rid), sent @ [body])"
    by (simp add: calculate_chrono_async_def first_post_accepted)
  then show ?thesis by blast
qed

text \<open>The worker: one more run after each \<open>Retry\<close>, until Celery gives up.\<close>

lemma worker_retries:
  assumes "length sent = k" "post k = ConnectFailed" "rr < task_max_retries"
  shows "\<exists>body. celery_worker R U tok rnd post rid (Some t) rr sent waited
                  = celery_worker R U tok rnd post rid (Some t) (Suc rr) (sent @ [body]) (waited + 5)"
proof -
  have p: "post (length sent) = ConnectFailed" using assms(1,2) by simp
  from run_raises[of post sent R U tok rr "rnd rr" rid t, OF p] obtain body where
    r: "calculate_chrono_async R U tok rr (rnd rr) post sent rid (Some t)
          = (Inl (self_retry rr 5), sent @ [body])" by blast
  have s: "self_retry rr 5 = Retry 5" using assms(3) by (simp add: self_retry_def)
  have "celery_worker R U tok rnd post rid (Some t) rr sent waited
          = celery_worker R U tok rnd post rid (Some t) (Suc rr) (sent @ [body]) (waited + 5)"
    by (subst celery_worker.simps) (simp add: r s assms(3))
  then show ?thesis by blast
qed

lemma worker_gives_up:
  assumes "length sent = k" "post k = ConnectFailed" "rr = task_max_retries"
  shows "\<exists>body. celery_worker R U tok rnd post rid (Some t) rr sent waited
                  = (Inl MaxRetriesExceededError, sent @ [body], waited)"
proof -
  have p: "post (length sent) = ConnectFailed" using assms(1,2) by simp
  from run_raises[of post sent R U tok rr "rnd rr" rid t, OF p] obtain body where
    r: "calculate_chrono_async R U tok rr (rnd rr) post sent rid (Some t)
          = (Inl (self_retry rr 5), sent @ [body])" by blast
  have s: "self_retry rr 5 = MaxRetriesExceededError" using assms(3) by (simp add: self_retry_def)
  have "celery_worker R U tok rnd post rid (Some t) rr sent waited
          = (Inl MaxRetriesExceededError, sent @ [body], waited)"
    by (subst celery_worker.simps) (simp add: r s)
  then show ?thesis by blast
qed

lemma worker_succeeds:
  assumes "length sent = k" "post k = Status 200"
  shows "\<exists>body. celery_worker R U tok rnd post rid (Some t) rr sent waited
                  = (Inr (Success rid), sent @ [body], waited)"
proof -
  have p: "post (length sent) = Status 200" using assms by simp
  from run_accepted[of post sent R U tok rr "rnd rr" rid t, OF p] obtain body where
    r: "calculate_chrono_async R U tok rr (rnd rr) post sent rid (Some t)
          = (Inr (Success rid), sent @ [body])" by blast
  have "celery_worker R U tok rnd post rid (Some t) rr sent waited
          = (Inr (Success rid), sent @ [body], waited)"
    by (subst celery_worker.simps) (simp add: r)
  then show ?thesis by blast
qed

lemma three_retries:
  assumes "post 0 = ConnectFailed" "post 1 = ConnectFailed" "post 2 = ConnectFailed"
  shows "\<exists>b0 b1 b2. celery_worker R U tok rnd post rid (Some t) 0 [] 0
                      = celery_worker R U tok rnd post rid (Some t) 3 [b0, b1, b2] 15"
proof -
  let ?w = "celery_worker R U tok rnd post rid (Some t)"
  have "\<exists>b. ?w 0 [] 0 = ?w 1 [b] 5"
    using worker_retries[where sent = "[]" and k = 0 and rr = 0 and waited = 0 and post = post
        and R = R and U = U and tok = tok and rnd = rnd and rid = rid and t = t] assms(1)
    by (simp add: task_max_retries_def numeral_2_eq_2 numeral_3_eq_3)
  then obtain b0 where s0: "?w 0 [] 0 = ?w 1 [b0] 5" ..
  have "\<exists>b. ?w 1 [b0] 5 = ?w 2 [b0, b] 10"
    using worker_retries[where sent = "[b0]" and k = 1 and rr = 1 and waited = 5 and post = post
        and R = R and U = U and tok = tok and rnd = rnd and rid = rid and t = t] assms(2)
    by (simp add: task_max_retries_def numeral_2_eq_2 numeral_3_eq_3)
  then obtain b1 where s1: "?w 1 [b0] 5 = ?w 2 [b0, b1] 10" ..
  have "\<exists>b. ?w 2 [b0, b1] 10 = ?w 3 [b0, b1, b] 15"
    using worker_retries[where sent = "[b0, b1]" and k = 2 and rr = 2 and waited = 10
        and post = post and R = R and U = U and tok = tok and rnd = rnd and rid = rid and t = t] assms(3)
    by (simp add: task_max_retries_def numeral_2_eq_2 numeral_3_eq_3)
  then obtain b2 where s2: "?w 2 [b0, b1] 10 = ?w 3 [b0, b1, b2] 15" ..
  have "?w 0 [] 0 = ?w 1 [b0] 5" by (rule s0)
  also have "\<dots> = ?w 2 [b0, b1] 10" by (rule s1)
  also have "\<dots> = ?w 3 [b0, b1, b2] 15" by (rule s2)
  finally show ?thesis by blast
qed

lemma four_connection_failures:
  assumes "post 0 = ConnectFailed" "post 1 = ConnectFailed" "post 2 = ConnectFailed"
    "post 3 = ConnectFailed"
  shows "\<exists>sent. celery_worker R U tok rnd post rid (Some t) 0 [] 0
                  = (Inl MaxRetriesExceededError, sent, 15) \<and> length sent = 4"
proof -
  let ?w = "celery_worker R U tok rnd post rid (Some t)"
  from three_retries[OF assms(1-3), of R U tok rnd rid t] obtain b0 b1 b2 where
    s: "?w 0 [] 0 = ?w 3 [b0, b1, b2] 15" by blast
  have "\<exists>b. ?w 3 [b0, b1, b2] 15 = (Inl MaxRetriesExceededError, [b0, b1, b2, b], 15)"
    using worker_gives_up[where sent = "[b0, b1, b2]" and k = 3 and rr = 3 and waited = 15
        and post = post and R = R and U = U and tok = tok and rnd = rnd and rid = rid and t = t] assms(4)
    by (simp add: task_max_retries_def numeral_2_eq_2 numeral_3_eq_3)
  then obtain b3 where
    "?w 3 [b0, b1, b2] 15 = (Inl MaxRetriesExceededError, [b0, b1, b2, b3], 15)" ..
  with s have "?w 0 [] 0 = (Inl MaxRetriesExceededError, [b0, b1, b2, b3], 15)"
    by (rule trans)
  then show ?thesis by simp
qed

lemma three_failures_then_accepted:
  assumes "post 0 = ConnectFailed" "post 1 = ConnectFailed" "post 2 = ConnectFailed"
    "post 3 = Status 200"
  shows "\<exists>sent. celery_worker R U tok rnd post rid (Some t) 0 [] 0
                  = (Inr (Success rid), sent, 15) \<and> length sent = 4"
proof -
  let ?w = "celery_worker R U tok rnd post rid (Some t)"
  from three_retries[OF assms(1-3), of R U tok rnd rid t] obtain b0 b1 b2 where
    s: "?w 0 [] 0 = ?w 3 [b0, b1, b2] 15" by blast
  have "\<exists>b. ?w 3 [b0, b1, b2] 15 = (Inr (Success rid), [b0, b1, b2, b], 15)"
    using worker_succeeds[where sent = "[b0, b1, b2]" and k = 3 and rr = 3 and waited = 15
        and post = post and R = R and U = U and tok = tok and rnd = rnd and rid = rid and t = t] assms(4)
    by (simp add: numeral_3_eq_3)
  then obtain b3 where "?w 3 [b0, b1, b2] 15 = (Inr (Success rid), [b0, b1, b2, b3], 15)" ..
  with s have "?w 0 [] 0 = (Inr (Success rid), [b0, b1, b2, b3], 15)" by (rule trans)
  then show ?thesis by simp
qed

text \<open>
  One connection failure followed by a response with status 200: the task reports
  success, after exactly two POSTs and one countdown of 5.
\<close>

lemma one_failure_then_accepted:
  assumes "post 0 = ConnectFailed" "post 1 = Status 200"
  shows "\<exists>sent. celery_worker R U tok rnd post rid (Some t) 0 [] 0
                  = (Inr (Success rid), sent, 5) \<and> length sent = 2"
proof -
  let ?w = "celery_worker R U tok rnd post rid (Some t)"
  have "\<exists>b. ?w 0 [] 0 = ?w 1 [b] 5"
    using worker_retries[where sent = "[]" and k = 0 and rr = 0 and waited = 0 and post = post
        and R = R and U = U and tok = tok and rnd = rnd and rid = rid and t = t] assms(1)
    by (simp add: task_max_retries_def numeral_2_eq_2 numeral_3_eq_3)
  then obtain b0 where s0: "?w 0 [] 0 = ?w 1 [b0] 5" ..
  have "\<exists>b. ?w 1 [b0] 5 = (Inr (Success rid), [b0, b], 5)"
    using worker_succeeds[where sent = "[b0]" and k = 1 and rr = 1 and waited = 5
        and post = post and R = R and U = U and tok = tok and rnd = rnd and rid = rid and t = t] assms(2)
    by simp
  then obtain b1 where "?w 1 [b0] 5 = (Inr (Success rid), [b0, b1], 5)" ..
  with s0 have "?w 0 [] 0 = (Inr (Success rid), [b0, b1], 5)" by (rule trans)
  then show ?thesis by simp
qed

text \<open>
  C1 says that the dispatcher makes up to 3 attempts and raises after the third
  consecutive connection failure. The code at that input, for the task
  \<open>calculate_chrono_async.delay(7, "thou hath dost")\<close>: a single run ends with
  \<open>Retry\<close> after one POST; when the first three POSTs fail to connect the worker
  makes a fourth POST (here accepted, so the task reports success); and the failure
  is raised, as \<open>MaxRetriesExceededError\<close>, only after a fourth connection failure
  and three countdowns of 5.
\<close>

theorem three_connection_failures_fourth_attempt:
  "(let run = calculate_chrono_async ieee_round ascii_tables (str_of ''111517'') 0 (0, 0)
                (\<lambda>k. ConnectFailed) [] 7 (Some (str_of ''thou hath dost''))
    in fst run = Inl (Retry 5) \<and> length (snd run) = 1)
   \<and> (let w = celery_worker ieee_round ascii_tables (str_of ''111517'') (\<lambda>n. (0, 0))
                (\<lambda>k. if k < 3 then ConnectFailed else Status 200) 7
                (Some (str_of ''thou hath dost'')) 0 [] 0
       in fst w = Inr (Success 7) \<and> length (fst (snd w)) = 4 \<and> snd (snd w) = 15)
   \<and> (let w = celery_worker ieee_round ascii_tables (str_of ''111517'') (\<lambda>n. (0, 0))
                (\<lambda>k. ConnectFailed) 7 (Some (str_of ''thou hath dost'')) 0 [] 0
       in fst w = Inl MaxRetriesExceededError \<and> length (fst (snd w)) = 4 \<and> snd (snd w) = 15)"
proof -
  let ?U = ascii_tables and ?tok = "str_of ''111517''" and ?t = "str_of ''thou hath dost''"
  have "\<exists>b. calculate_chrono_async ieee_round ?U ?tok 0 (0, 0) (\<lambda>k. ConnectFailed) [] 7 (Some ?t)
       = (Inl (self_retry 0 5), [] @ [b])"
    by (rule run_raises) simp
  then have a: "let run = calculate_chrono_async ieee_round ?U ?tok 0 (0, 0) (\<lambda>k. ConnectFailed) [] 7 (Some ?t)
                in fst run = Inl (Retry 5) \<and> length (snd run) = 1"
    by (auto simp: self_retry_def task_max_retries_def)
  have "\<exists>sent. celery_worker ieee_round ?U ?tok (\<lambda>n. (0, 0))
                (\<lambda>k. if k < 3 then ConnectFailed else Status 200) 7 (Some ?t) 0 [] 0
              = (Inr (Success 7), sent, 15) \<and> length sent = 4"
    by (rule three_failures_then_accepted) simp_all
  then have b: "let w = celery_worker ieee_round ?U ?tok (\<lambda>n. (0, 0))
                (\<lambda>k. if k < 3 then ConnectFailed else Status 200) 7 (Some ?t) 0 [] 0
           in fst w = Inr (Success 7) \<and> length (fst (snd w)) = 4 \<and> snd (snd w) = 15"
    by auto
  have "\<exists>sent. celery_worker ieee_round ?U ?tok (\<lambda>n. (0, 0)) (\<lambda>k. ConnectFailed) 7 (Some ?t) 0 [] 0
              = (Inl MaxRetriesExceededError, sent, 15) \<and> length sent = 4"
    by (rule four_connection_failures) simp_all
  then have c: "let w = celery_worker ieee_round ?U ?tok (\<lambda>n. (0, 0)) (\<lambda>k. ConnectFailed) 7 (Some ?t) 0 [] 0
           in fst w = Inl MaxRetriesExceededError \<and> length (fst (snd w)) = 4 \<and> snd (snd w) = 15"
    by auto
  from a b c show ?thesis by simp
qed

end
